theory Spec2Isabelle
  imports Complex_Main
begin

section \<open>Errors raised by the service\<close>

text \<open>
  Every \<^verbatim>\<open>raise\<close> of the handlers and every exception of the store is a value.
  \<open>HTTPException status detail\<close> is FastAPI's exception, \<open>RequestValidationError\<close> the
  rejection of a request payload by its schema (answered 422); the other constructors are
  the exceptions the relational store raises through the session.
\<close>

datatype error =
    HTTPException int string
  | IntegrityError
  | DataError
  | InvalidRequestError
  | RequestValidationError

section \<open>Admission-controlled compute handlers (app/main.py)\<close>

subsection \<open>compute_fibonacci\<close>

text \<open>
  The inner function of \<^verbatim>\<open>compute_fibonacci\<close>:
  \<^verbatim>\<open>
  def fibonacci(num):
      if num <= 1:
          return num
      return fibonacci(num - 1) + fibonacci(num - 2)
  \<close>
  on Python's unbounded integers.
\<close>

function fibonacci :: "int \<Rightarrow> int" where
  "fibonacci num = (if num \<le> 1 then num else fibonacci (num - 1) + fibonacci (num - 2))"
  by pat_completeness auto
termination
  by (relation "measure (\<lambda>num. nat num)") auto

declare fibonacci.simps [simp del]

text \<open>The number of invocations of \<open>fibonacci\<close> that one call \<open>fibonacci num\<close> makes.\<close>

function fibonacci_calls :: "int \<Rightarrow> nat" where
  "fibonacci_calls num =
     (if num \<le> 1 then 1 else 1 + fibonacci_calls (num - 1) + fibonacci_calls (num - 2))"
  by pat_completeness auto
termination
  by (relation "measure (\<lambda>num. nat num)") auto

declare fibonacci_calls.simps [simp del]

text \<open>
  The handler. Its response dictionary \<^verbatim>\<open>{"n": .., "fibonacci": .., "message": ..}\<close> is
  the triple of its values.
\<close>

definition compute_fibonacci :: "int \<Rightarrow> error + (int \<times> int \<times> string)" where
  "compute_fibonacci n =
     (if n < 0 then Inl (HTTPException 400 ''n must be non-negative'')
      else if n > 40 then Inl (HTTPException 400 ''n must be <= 40 to prevent timeout'')
      else Inr (n, fibonacci n, ''CPU intensive computation completed''))"

text \<open>
  The work of the handler, counted in invocations of \<open>fibonacci\<close>: both guards return
  before the call \<^verbatim>\<open>result = fibonacci(n)\<close>.
\<close>

definition compute_fibonacci_calls :: "int \<Rightarrow> nat" where
  "compute_fibonacci_calls n =
     (if n < 0 then 0
      else if n > 40 then 0
      else fibonacci_calls n)"

text \<open>
  The Fibonacci numbers in the specification's words: \<open>fib(0) = 0\<close>, \<open>fib(1) = 1\<close>,
  \<open>fib(k) = fib(k-1) + fib(k-2)\<close>.
\<close>

fun fib_spec :: "nat \<Rightarrow> int" where
  "fib_spec 0 = 0"
| "fib_spec (Suc 0) = 1"
| "fib_spec (Suc (Suc k)) = fib_spec (Suc k) + fib_spec k"

text \<open>A linear iteration on pairs \<open>(fib k, fib (k + 1))\<close>, used to evaluate \<open>fib_spec\<close>.\<close>

fun fib_pair :: "nat \<Rightarrow> int \<times> int" where
  "fib_pair 0 = (0, 1)"
| "fib_pair (Suc k) = (case fib_pair k of (a, b) \<Rightarrow> (b, a + b))"

subsection \<open>compute_sum\<close>

text \<open>Python's \<^verbatim>\<open>range(stop)\<close>: the integers \<open>0, ..., stop - 1\<close>, none when \<open>stop \<le> 0\<close>.\<close>

definition range_py :: "int \<Rightarrow> int list" where
  "range_py stop = [0..stop - 1]"

definition compute_sum :: "int \<Rightarrow> error + (int \<times> int \<times> string)" where
  "compute_sum n =
     (if n < 0 then Inl (HTTPException 400 ''n must be non-negative'')
      else if n > 10000000 then Inl (HTTPException 400 ''n must be <= 10000000'')
      else Inr (n, sum_list (range_py (n + 1)), ''Computation completed''))"

section \<open>Data model (app/models.py, app/schemas.py)\<close>

text \<open>
  The rows of the two tables. \<open>created_at\<close> is a reading of the store's clock, taken
  by the server default \<^verbatim>\<open>func.now()\<close> at insert.
\<close>

record User =
  User_id :: int
  User_email :: string
  User_full_name :: string
  User_is_active :: bool
  User_created_at :: nat

record Post =
  Post_id :: int
  Post_title :: string
  Post_content :: string
  Post_is_published :: bool
  Post_created_at :: nat
  Post_owner_id :: int

text \<open>The request payloads \<^verbatim>\<open>schemas.UserCreate\<close> and \<^verbatim>\<open>schemas.PostCreate\<close>.\<close>

record UserCreate =
  email :: string
  full_name :: string
  is_active :: bool

record PostCreate =
  title :: string
  content :: string
  is_published :: bool

section \<open>The relational store and the session\<close>

text \<open>
  The committed state of the store: both tables, the last values of the two serial
  primary-key sequences, and the clock read by \<^verbatim>\<open>func.now()\<close>. A table is the
  list of its rows in the order in which the store returns them to a query without
  \<^verbatim>\<open>ORDER BY\<close>. That order is the store's choice: \<open>slots\<close> gives, for the rows
  inserted next, the position at which the store puts each of them among the rows that
  are there, so that a new row need not come last.
\<close>

record database =
  users_table :: "User list"
  posts_table :: "Post list"
  users_id_seq :: int
  posts_id_seq :: int
  clock :: nat
  slots :: "nat \<Rightarrow> nat"

definition insert_row :: "nat \<Rightarrow> 'a \<Rightarrow> 'a list \<Rightarrow> 'a list" where
  "insert_row k row rows = take k rows @ [row] @ drop k rows"

text \<open>
  A change staged in a session: \<^verbatim>\<open>db.add(models.User(**user.dict()))\<close>,
  \<^verbatim>\<open>db.add(models.Post(**post.dict(), owner_id=user_id))\<close> and
  \<^verbatim>\<open>db.delete(db_user)\<close>.
\<close>

datatype change =
    Add_User UserCreate
  | Add_Post PostCreate int
  | Delete_User User

text \<open>
  A session is one unit of work: the committed store it is bound to, and the changes
  staged since the last commit.
\<close>

record Session =
  store :: database
  pending :: "change list"

text \<open>
  \<^verbatim>\<open>INSERT INTO users\<close>: the id is the next value of the sequence and the
  creation time is the clock; the primary key and \<^verbatim>\<open>unique=True\<close> on the
  email are enforced by the store, which puts the row where it chooses.
\<close>

definition insert_user :: "UserCreate \<Rightarrow> database \<Rightarrow> error + database" where
  "insert_user u d =
     (let row = \<lparr>User_id = users_id_seq d + 1, User_email = email u,
                 User_full_name = full_name u, User_is_active = is_active u,
                 User_created_at = clock d\<rparr>
      in if User_id row \<in> set (map User_id (users_table d)) \<or>
            User_email row \<in> set (map User_email (users_table d))
         then Inl IntegrityError
         else Inr (d\<lparr>users_table := insert_row (slots d 0) row (users_table d),
                   users_id_seq := User_id row,
                   slots := (\<lambda>k. slots d (Suc k))\<rparr>))"

text \<open>
  \<^verbatim>\<open>INSERT INTO posts\<close>: the primary key and the foreign key
  \<^verbatim>\<open>ForeignKey("users.id")\<close> are enforced by the store.
\<close>

definition insert_post :: "PostCreate \<Rightarrow> int \<Rightarrow> database \<Rightarrow> error + database" where
  "insert_post p owner d =
     (let row = \<lparr>Post_id = posts_id_seq d + 1, Post_title = title p,
                 Post_content = content p, Post_is_published = is_published p,
                 Post_created_at = clock d, Post_owner_id = owner\<rparr>
      in if Post_id row \<in> set (map Post_id (posts_table d)) \<or>
            owner \<notin> set (map User_id (users_table d))
         then Inl IntegrityError
         else Inr (d\<lparr>posts_table := insert_row (slots d 0) row (posts_table d),
                   posts_id_seq := Post_id row,
                   slots := (\<lambda>k. slots d (Suc k))\<rparr>))"

text \<open>
  Deleting a user object. The relationship \<^verbatim>\<open>User.posts\<close> is declared with
  \<^verbatim>\<open>cascade="all, delete-orphan"\<close>: the posts of the user (those whose
  \<open>owner_id\<close> is the user's id) are deleted with it.
\<close>

definition delete_user_row :: "User \<Rightarrow> database \<Rightarrow> database" where
  "delete_user_row u d =
     d\<lparr>posts_table := filter (\<lambda>p. Post_owner_id p \<noteq> User_id u) (posts_table d),
       users_table := filter (\<lambda>r. User_id r \<noteq> User_id u) (users_table d)\<rparr>"

fun apply_change :: "change \<Rightarrow> database \<Rightarrow> error + database" where
  "apply_change (Add_User u) d = insert_user u d"
| "apply_change (Add_Post p owner) d = insert_post p owner d"
| "apply_change (Delete_User u) d = Inr (delete_user_row u d)"

text \<open>The staged changes are written in order, inside one transaction.\<close>

fun flush :: "change list \<Rightarrow> database \<Rightarrow> error + database" where
  "flush [] d = Inr d"
| "flush (c # cs) d = (case apply_change c d of Inl e \<Rightarrow> Inl e | Inr d' \<Rightarrow> flush cs d')"

text \<open>\<^verbatim>\<open>db.add(obj)\<close> and \<^verbatim>\<open>db.delete(obj)\<close> stage a change; the store is not touched.\<close>

definition add :: "Session \<Rightarrow> change \<Rightarrow> Session" where
  "add db c = db\<lparr>pending := pending db @ [c]\<rparr>"

definition delete :: "Session \<Rightarrow> User \<Rightarrow> Session" where
  "delete db u = db\<lparr>pending := pending db @ [Delete_User u]\<rparr>"

text \<open>
  \<^verbatim>\<open>db.commit()\<close>: all staged changes become the committed store together, or
  the exception of the first one that fails is raised and the store keeps its state.
\<close>

definition commit :: "Session \<Rightarrow> error + Session" where
  "commit db =
     (case flush (pending db) (store db) of
        Inl e \<Rightarrow> Inl e
      | Inr d \<Rightarrow> Inr \<lparr>store = d, pending = []\<rparr>)"

text \<open>\<^verbatim>\<open>.first()\<close>: the first row of a result, or \<^verbatim>\<open>None\<close>.\<close>

definition first :: "'a list \<Rightarrow> 'a option" where
  "first rows = (case rows of [] \<Rightarrow> None | r # _ \<Rightarrow> Some r)"

text \<open>
  \<^verbatim>\<open>.offset(skip).limit(limit).all()\<close>: the store rejects a negative OFFSET or
  LIMIT; otherwise it skips \<open>skip\<close> rows and returns at most \<open>limit\<close> rows.
\<close>

definition offset_limit :: "int \<Rightarrow> int \<Rightarrow> 'a list \<Rightarrow> error + 'a list" where
  "offset_limit skip limit rows =
     (if skip < 0 \<or> limit < 0 then Inl DataError
      else Inr (take (nat limit) (drop (nat skip) rows)))"

text \<open>
  \<^verbatim>\<open>db.refresh(obj)\<close> after the insert: the row is read again by the primary key
  the sequence gave it; the call raises when there is no such row.
\<close>

definition refresh_User :: "Session \<Rightarrow> error + User" where
  "refresh_User db =
     (case first (filter (\<lambda>u. User_id u = users_id_seq (store db)) (users_table (store db))) of
        None \<Rightarrow> Inl InvalidRequestError
      | Some u \<Rightarrow> Inr u)"

definition refresh_Post :: "Session \<Rightarrow> error + Post" where
  "refresh_Post db =
     (case first (filter (\<lambda>p. Post_id p = posts_id_seq (store db)) (posts_table (store db))) of
        None \<Rightarrow> Inl InvalidRequestError
      | Some p \<Rightarrow> Inr p)"

section \<open>Persistence repository (app/crud.py)\<close>

text \<open>
  Each function takes the session and returns its result with the session as the call
  leaves it; a raised exception is \<open>Inl\<close>. A query reads the committed store: in every
  function here the queries come before anything is staged.
\<close>

definition crud_get_user :: "Session \<Rightarrow> int \<Rightarrow> User option" where
  "crud_get_user db user_id = first (filter (\<lambda>u. User_id u = user_id) (users_table (store db)))"

definition crud_get_user_by_email :: "Session \<Rightarrow> string \<Rightarrow> User option" where
  "crud_get_user_by_email db e = first (filter (\<lambda>u. User_email u = e) (users_table (store db)))"

definition crud_get_users :: "Session \<Rightarrow> int \<Rightarrow> int \<Rightarrow> error + User list" where
  "crud_get_users db skip limit = offset_limit skip limit (users_table (store db))"

definition crud_create_user :: "Session \<Rightarrow> UserCreate \<Rightarrow> (error + User) \<times> Session" where
  "crud_create_user db user =
     (let db1 = add db (Add_User user) in
      case commit db1 of
        Inl e \<Rightarrow> (Inl e, db1)
      | Inr db2 \<Rightarrow> (refresh_User db2, db2))"

definition crud_delete_user :: "Session \<Rightarrow> int \<Rightarrow> (error + bool) \<times> Session" where
  "crud_delete_user db user_id =
     (case first (filter (\<lambda>u. User_id u = user_id) (users_table (store db))) of
        Some db_user \<Rightarrow>
          (let db1 = delete db db_user in
           case commit db1 of
             Inl e \<Rightarrow> (Inl e, db1)
           | Inr db2 \<Rightarrow> (Inr True, db2))
      | None \<Rightarrow> (Inr False, db))"

definition crud_get_posts :: "Session \<Rightarrow> int \<Rightarrow> int \<Rightarrow> error + Post list" where
  "crud_get_posts db skip limit = offset_limit skip limit (posts_table (store db))"

definition crud_create_post :: "Session \<Rightarrow> PostCreate \<Rightarrow> int \<Rightarrow> (error + Post) \<times> Session" where
  "crud_create_post db post user_id =
     (let db1 = add db (Add_Post post user_id) in
      case commit db1 of
        Inl e \<Rightarrow> (Inl e, db1)
      | Inr db2 \<Rightarrow> (refresh_Post db2, db2))"

section \<open>Request handlers (app/main.py)\<close>

definition create_user :: "Session \<Rightarrow> UserCreate \<Rightarrow> (error + User) \<times> Session" where
  "create_user db user =
     (case crud_get_user_by_email db (email user) of
        Some db_user \<Rightarrow> (Inl (HTTPException 400 ''Email already registered''), db)
      | None \<Rightarrow> crud_create_user db user)"

definition read_users :: "Session \<Rightarrow> int \<Rightarrow> int \<Rightarrow> (error + User list) \<times> Session" where
  "read_users db skip limit = (crud_get_users db skip limit, db)"

definition read_user :: "Session \<Rightarrow> int \<Rightarrow> (error + User) \<times> Session" where
  "read_user db user_id =
     (case crud_get_user db user_id of
        None \<Rightarrow> (Inl (HTTPException 404 ''User not found''), db)
      | Some db_user \<Rightarrow> (Inr db_user, db))"

definition delete_user :: "Session \<Rightarrow> int \<Rightarrow> (error + string) \<times> Session" where
  "delete_user db user_id =
     (case crud_get_user db user_id of
        None \<Rightarrow> (Inl (HTTPException 404 ''User not found''), db)
      | Some db_user \<Rightarrow>
          (case crud_delete_user db user_id of
             (Inl e, db') \<Rightarrow> (Inl e, db')
           | (Inr _, db') \<Rightarrow> (Inr ''User deleted successfully'', db')))"

definition create_post_for_user ::
    "Session \<Rightarrow> int \<Rightarrow> PostCreate \<Rightarrow> (error + Post) \<times> Session" where
  "create_post_for_user db user_id post =
     (case crud_get_user db user_id of
        None \<Rightarrow> (Inl (HTTPException 404 ''User not found''), db)
      | Some db_user \<Rightarrow> crud_create_post db post user_id)"

definition read_posts :: "Session \<Rightarrow> int \<Rightarrow> int \<Rightarrow> (error + Post list) \<times> Session" where
  "read_posts db skip limit = (crud_get_posts db skip limit, db)"

section \<open>Session lifecycle (get_db) and request validation\<close>

text \<open>
  The server: the store behind the engine, and the log of the sessions acquired and
  released so far. A handle is the number that identifies one session in the log.
\<close>

datatype session_event = Opened nat | Closed nat

fun handle :: "session_event \<Rightarrow> nat" where
  "handle (Opened h) = h"
| "handle (Closed h) = h"

record server =
  engine :: database
  sessions :: "session_event list"

text \<open>\<^verbatim>\<open>SessionLocal()\<close>: a new session on the engine's store, under a handle not yet in the log.\<close>

definition SessionLocal :: "server \<Rightarrow> (nat \<times> Session) \<times> server" where
  "SessionLocal srv =
     (let h = Suc (fold max (map handle (sessions srv)) 0)
      in ((h, \<lparr>store = engine srv, pending = []\<rparr>),
          srv\<lparr>sessions := sessions srv @ [Opened h]\<rparr>))"

text \<open>\<^verbatim>\<open>db.close()\<close>: the handle is released; what was staged and not committed is dropped.\<close>

definition close :: "nat \<Rightarrow> server \<Rightarrow> server" where
  "close h srv = srv\<lparr>sessions := sessions srv @ [Closed h]\<rparr>"

text \<open>
  The dependency
  \<^verbatim>\<open>
  def get_db():
      db = SessionLocal()
      try:
          yield db
      finally:
          db.close()
  \<close>
  around an endpoint: the endpoint runs at the \<^verbatim>\<open>yield\<close> with the session; whatever it
  returns or raises (\<open>Inl\<close>), the \<^verbatim>\<open>finally\<close> block runs. What the endpoint committed
  through the session is the engine's store afterwards.
\<close>

definition get_db :: "(Session \<Rightarrow> 'a \<times> Session) \<Rightarrow> server \<Rightarrow> 'a \<times> server" where
  "get_db endpoint srv =
     (case SessionLocal srv of
        ((h, db), srv1) \<Rightarrow>
          (case endpoint db of
             (result, db') \<Rightarrow> (result, close h (srv1\<lparr>engine := store db'\<rparr>))))"

text \<open>
  A request body is a JSON object: a map from field names to JSON values. The field
  validators of the schema library are parameters: \<open>validate_EmailStr\<close> gives the
  accepted address of a syntactically valid email string and \<open>None\<close> for anything else.
\<close>

datatype json = JNull | JBool bool | JNumber int | JString string

type_synonym body = "string \<rightharpoonup> json"

record validators =
  validate_EmailStr :: "json \<Rightarrow> string option"
  validate_str :: "json \<Rightarrow> string option"
  validate_bool :: "json \<Rightarrow> bool option"

text \<open>
  \<^verbatim>\<open>schemas.UserCreate\<close>: \<^verbatim>\<open>email: EmailStr\<close>, \<^verbatim>\<open>full_name: str\<close>,
  \<^verbatim>\<open>is_active: bool = True\<close>; \<^verbatim>\<open>schemas.PostCreate\<close>: \<^verbatim>\<open>title: str\<close>,
  \<^verbatim>\<open>content: str\<close>, \<^verbatim>\<open>is_published: bool = True\<close>. A payload is accepted when
  every required field is there and every field there passes its validator.
\<close>

definition validate_UserCreate :: "validators \<Rightarrow> body \<Rightarrow> error + UserCreate" where
  "validate_UserCreate V b =
     (case (Option.bind (b ''email'') (validate_EmailStr V),
            Option.bind (b ''full_name'') (validate_str V),
            (case b ''is_active'' of None \<Rightarrow> Some True | Some v \<Rightarrow> validate_bool V v)) of
        (Some e, Some n, Some a) \<Rightarrow> Inr \<lparr>email = e, full_name = n, is_active = a\<rparr>
      | _ \<Rightarrow> Inl RequestValidationError)"

definition validate_PostCreate :: "validators \<Rightarrow> body \<Rightarrow> error + PostCreate" where
  "validate_PostCreate V b =
     (case (Option.bind (b ''title'') (validate_str V),
            Option.bind (b ''content'') (validate_str V),
            (case b ''is_published'' of None \<Rightarrow> Some True | Some v \<Rightarrow> validate_bool V v)) of
        (Some t, Some c, Some a) \<Rightarrow> Inr \<lparr>title = t, content = c, is_published = a\<rparr>
      | _ \<Rightarrow> Inl RequestValidationError)"

text \<open>
  An endpoint with a payload parameter: the payload is validated first; the endpoint is
  called only with an accepted payload.
\<close>

definition request_body ::
    "(body \<Rightarrow> error + 'a) \<Rightarrow> (Session \<Rightarrow> 'a \<Rightarrow> (error + 'b) \<times> Session) \<Rightarrow>
     body \<Rightarrow> Session \<Rightarrow> (error + 'b) \<times> Session" where
  "request_body validate endpoint b db =
     (case validate b of
        Inl e \<Rightarrow> (Inl e, db)
      | Inr payload \<Rightarrow> endpoint db payload)"

text \<open>The routes of app/main.py that declare \<^verbatim>\<open>db: Session = Depends(get_db)\<close>.\<close>

definition create_user_route :: "validators \<Rightarrow> body \<Rightarrow> server \<Rightarrow> (error + User) \<times> server" where
  "create_user_route V b = get_db (request_body (validate_UserCreate V) create_user b)"

definition read_users_route :: "int \<Rightarrow> int \<Rightarrow> server \<Rightarrow> (error + User list) \<times> server" where
  "read_users_route skip limit = get_db (\<lambda>db. read_users db skip limit)"

definition read_user_route :: "int \<Rightarrow> server \<Rightarrow> (error + User) \<times> server" where
  "read_user_route user_id = get_db (\<lambda>db. read_user db user_id)"

definition delete_user_route :: "int \<Rightarrow> server \<Rightarrow> (error + string) \<times> server" where
  "delete_user_route user_id = get_db (\<lambda>db. delete_user db user_id)"

definition create_post_for_user_route ::
    "validators \<Rightarrow> int \<Rightarrow> body \<Rightarrow> server \<Rightarrow> (error + Post) \<times> server" where
  "create_post_for_user_route V user_id b =
     get_db (request_body (validate_PostCreate V) (\<lambda>db. create_post_for_user db user_id) b)"

definition read_posts_route :: "int \<Rightarrow> int \<Rightarrow> server \<Rightarrow> (error + Post list) \<times> server" where
  "read_posts_route skip limit = get_db (\<lambda>db. read_posts db skip limit)"

section \<open>Example data\<close>

definition example_user_1 :: User where
  "example_user_1 = \<lparr>User_id = 1, User_email = ''a@x.com'', User_full_name = ''A'',
     User_is_active = True, User_created_at = 0\<rparr>"

definition example_user_2 :: User where
  "example_user_2 = \<lparr>User_id = 2, User_email = ''b@x.com'', User_full_name = ''B'',
     User_is_active = True, User_created_at = 0\<rparr>"

definition example_user_3 :: User where
  "example_user_3 = \<lparr>User_id = 3, User_email = ''c@x.com'', User_full_name = ''C'',
     User_is_active = True, User_created_at = 0\<rparr>"

definition example_post_1 :: Post where
  "example_post_1 = \<lparr>Post_id = 1, Post_title = ''T'', Post_content = ''C'',
     Post_is_published = True, Post_created_at = 0, Post_owner_id = 1\<rparr>"

definition example_post_2 :: Post where
  "example_post_2 = \<lparr>Post_id = 2, Post_title = ''U'', Post_content = ''D'',
     Post_is_published = True, Post_created_at = 0, Post_owner_id = 2\<rparr>"

definition example_database :: database where
  "example_database =
     \<lparr>users_table = [example_user_1, example_user_2, example_user_3],
      posts_table = [example_post_1, example_post_2],
      users_id_seq = 3, posts_id_seq = 2, clock = 0, slots = (\<lambda>k. 0)\<rparr>"

definition example_session :: Session where
  "example_session = \<lparr>store = example_database, pending = []\<rparr>"

definition example_server :: server where
  "example_server = \<lparr>engine = example_database, sessions = [Opened 1, Closed 1]\<rparr>"

text \<open>A validator set for the examples: an address is a string with an \<open>@\<close> in it.\<close>

definition example_validators :: validators where
  "example_validators =
     \<lparr>validate_EmailStr = (\<lambda>v. case v of JString s \<Rightarrow> if CHR ''@'' \<in> set s then Some s else None
                                 | _ \<Rightarrow> None),
      validate_str = (\<lambda>v. case v of JString s \<Rightarrow> Some s | _ \<Rightarrow> None),
      validate_bool = (\<lambda>v. case v of JBool a \<Rightarrow> Some a | _ \<Rightarrow> None)\<rparr>"

definition example_body_bad :: body where
  "example_body_bad = [''email'' \<mapsto> JString ''not-an-address'', ''full_name'' \<mapsto> JString ''D'']"

definition example_body_good :: body where
  "example_body_good = [''email'' \<mapsto> JString ''d@x.com'', ''full_name'' \<mapsto> JString ''D'']"

section \<open>Load orchestrator (test_load.py)\<close>

text \<open>
  The client functions of the script (\<^verbatim>\<open>create_user\<close>, \<^verbatim>\<open>get_users\<close>,
  \<^verbatim>\<open>get_user_by_id\<close>, \<^verbatim>\<open>create_post\<close>, \<^verbatim>\<open>compute_fibonacci\<close>,
  \<^verbatim>\<open>compute_sum\<close>, \<^verbatim>\<open>health_check\<close>) each send one request; a call is the function
  with its arguments. An awaited call returns the parsed body or raises.
\<close>

datatype call =
    Create_user int
  | Get_users int int
  | Get_user_by_id int
  | Create_post int int
  | Compute_fibonacci int
  | Compute_sum int
  | Health_check

datatype outcome = Returned | Raised

text \<open>
  What the script prints about its progress: the two results of the health check, the
  numbers of created users and posts, the seconds the CPU-intensive operations took, the
  closing line of \<^verbatim>\<open>run_mixed_load\<close> and the closing line of \<^verbatim>\<open>main\<close>. The
  headings and the final hints, which are fixed text, are left out.
\<close>

datatype report =
    Health_check_ok
  | Health_check_failed
  | Created_users nat
  | Created_posts nat
  | Completed_cpu real
  | Completed_cycles nat int
  | Load_testing_completed

text \<open>
  The actions of the script, in the order it takes them: a call is issued, a join returns
  with the outcomes of the calls it waited for (in the order of the tasks), the script
  sleeps for an interval, the script prints.
\<close>

datatype event = Issued call | Joined "outcome list" | Slept real | Printed report

text \<open>
  The world the script runs in: the outcomes of the calls still to be issued, the draws of
  the random generator still to come, the readings of \<^verbatim>\<open>time.time()\<close> still to come
  (in seconds), and the actions taken so far.
\<close>

record world =
  outcomes :: "nat \<Rightarrow> outcome"
  draws :: "nat \<Rightarrow> nat"
  readings :: "nat \<Rightarrow> real"
  trace :: "event list"

definition time_time :: "world \<Rightarrow> real \<times> world" where
  "time_time w = (readings w 0, w\<lparr>readings := (\<lambda>k. readings w (Suc k))\<rparr>)"

text \<open>\<^verbatim>\<open>random.randint(a, b)\<close>: an integer \<open>N\<close> with \<open>a \<le> N \<le> b\<close>.\<close>

definition randint :: "int \<Rightarrow> int \<Rightarrow> world \<Rightarrow> int \<times> world" where
  "randint a b w = (a + int (draws w 0) mod (b - a + 1), w\<lparr>draws := (\<lambda>k. draws w (Suc k))\<rparr>)"

text \<open>
  \<^verbatim>\<open>await asyncio.gather(*tasks, return_exceptions=True)\<close>: the tasks are issued, and
  the join returns one outcome for each of them, an exception being an outcome like any
  other.
\<close>

definition gather :: "call list \<Rightarrow> world \<Rightarrow> outcome list \<times> world" where
  "gather tasks w =
     (let results = map (outcomes w) [0..<length tasks]
      in (results,
          w\<lparr>outcomes := (\<lambda>k. outcomes w (k + length tasks)),
            trace := trace w @ map Issued tasks @ [Joined results]\<rparr>))"


definition sleep :: "real \<Rightarrow> world \<Rightarrow> world" where
  "sleep delay w = w\<lparr>trace := trace w @ [Slept delay]\<rparr>"

definition print :: "report \<Rightarrow> world \<Rightarrow> world" where
  "print r w = w\<lparr>trace := trace w @ [Printed r]\<rparr>"

text \<open>
  The body of the loop of \<^verbatim>\<open>run_mixed_load\<close> up to the join: the task list of one
  iteration.
  \<^verbatim>\<open>
  tasks = []
  tasks.append(health_check(session))
  if operation_count % 3 == 0:
      tasks.append(get_users(session, skip=0, limit=20))
  if operation_count % 5 == 0:
      tasks.append(compute_fibonacci(session, random.randint(25, 30)))
  \<close>
\<close>

definition mixed_load_tasks :: "nat \<Rightarrow> world \<Rightarrow> call list \<times> world" where
  "mixed_load_tasks operation_count w =
     (let tasks = [Health_check] @ (if operation_count mod 3 = 0 then [Get_users 0 20] else [])
      in if operation_count mod 5 = 0
         then (case randint 25 30 w of (n, w1) \<Rightarrow> (tasks @ [Compute_fibonacci n], w1))
         else (tasks, w))"

text \<open>
  The loop \<^verbatim>\<open>while time.time() - start_time < duration\<close>. It runs as long as the clock
  says so, which may be for ever: the first argument bounds the number of times the
  condition is evaluated, and \<open>None\<close> is a run that has not ended within the bound.
\<close>

fun mixed_load_loop :: "nat \<Rightarrow> real \<Rightarrow> int \<Rightarrow> nat \<Rightarrow> world \<Rightarrow> (nat \<times> world) option" where
  "mixed_load_loop 0 start_time duration operation_count w = None"
| "mixed_load_loop (Suc fuel) start_time duration operation_count w =
     (case time_time w of
        (now, w1) \<Rightarrow>
          if now - start_time < of_int duration
          then (case mixed_load_tasks operation_count w1 of
                  (tasks, w2) \<Rightarrow>
                    (case gather tasks w2 of
                       (results, w3) \<Rightarrow>
                         mixed_load_loop fuel start_time duration (operation_count + 1)
                           (sleep (1 / 10) w3)))
          else Some (operation_count, w1))"

definition run_mixed_load :: "nat \<Rightarrow> int \<Rightarrow> world \<Rightarrow> world option" where
  "run_mixed_load fuel duration w =
     (case time_time w of
        (start_time, w1) \<Rightarrow>
          (case mixed_load_loop fuel start_time duration 0 w1 of
             None \<Rightarrow> None
           | Some (operation_count, w2) \<Rightarrow>
               Some (print (Completed_cycles operation_count duration) w2)))"

text \<open>
  \<^verbatim>\<open>run_user_operations\<close>: one user creation for each \<open>i\<close>, and a list call for
  every fifth, gathered together.
\<close>

definition run_user_operations :: "int \<Rightarrow> world \<Rightarrow> world" where
  "run_user_operations num_operations w =
     snd (gather
       (concat (map (\<lambda>i. [Create_user i] @ (if i mod 5 = 0 then [Get_users 0 10] else []))
          (range_py num_operations))) w)"




text \<open>
  The cadence in the specification's words: every iteration one health check, every 3rd
  iteration a list call, every 5th iteration a Fibonacci call (with parameter \<open>r\<close>).
\<close>

definition cycle_calls :: "nat \<Rightarrow> int \<Rightarrow> call list" where
  "cycle_calls i r =
     [Health_check] @ (if i mod 3 = 0 then [Get_users 0 20] else []) @
     (if i mod 5 = 0 then [Compute_fibonacci r] else [])"

text \<open>
  The actions of consecutive complete iterations, the first with counter \<open>i\<close>: each issues
  its calls, joins them, then sleeps. An iteration is given by its Fibonacci parameter and
  the outcomes its join returned.
\<close>

fun cycles_events :: "nat \<Rightarrow> (int \<times> outcome list) list \<Rightarrow> event list" where
  "cycles_events i [] = []"
| "cycles_events i ((r, results) # rest) =
     map Issued (cycle_calls i r) @ [Joined results, Slept (1 / 10)] @ cycles_events (Suc i) rest"

fun cycles_ok :: "nat \<Rightarrow> (int \<times> outcome list) list \<Rightarrow> bool" where
  "cycles_ok i [] = True"
| "cycles_ok i ((r, results) # rest) =
     (25 \<le> r \<and> r \<le> 30 \<and> length results = length (cycle_calls i r) \<and> cycles_ok (Suc i) rest)"

definition example_world :: world where
  "example_world =
     \<lparr>outcomes = (\<lambda>k. if k = 1 then Raised else Returned),
      draws = (\<lambda>k. 3),
      readings = (\<lambda>k. 20 * real k),
      trace = []\<rparr>"


definition example_world_boundary :: world where
  "example_world_boundary =
     \<lparr>outcomes = (\<lambda>k. Returned),
      draws = (\<lambda>k. 0),
      readings = (\<lambda>k. if k = 0 then 0 else 60),
      trace = []\<rparr>"

section \<open>Properties of the compute handlers\<close>

lemma fib_pair_spec: "fib_pair k = (fib_spec k, fib_spec (Suc k))"
  by (induction k) simp_all

lemma fib_spec_40: "fib_spec 40 = 102334155"
proof -
  have "fib_pair 40 = (102334155, 165580141)"
    by code_simp
  then show ?thesis
    by (simp add: fib_pair_spec)
qed

lemma fibonacci_fib_spec: "fibonacci (int k) = fib_spec k"
proof (induction k rule: fib_spec.induct)
  case 1
  show ?case by (simp add: fibonacci.simps)
next
  case 2
  show ?case by (simp add: fibonacci.simps)
next
  case (3 k)
  have "fibonacci (int (Suc (Suc k))) =
      fibonacci (int (Suc (Suc k)) - 1) + fibonacci (int (Suc (Suc k)) - 2)"
    by (subst fibonacci.simps) simp
  moreover have "int (Suc (Suc k)) - 1 = int (Suc k)" and "int (Suc (Suc k)) - 2 = int k"
    by simp_all
  ultimately show ?case
    using 3 by simp
qed

lemma fibonacci_nonneg: "0 \<le> n \<Longrightarrow> fibonacci n = fib_spec (nat n)"
  using fibonacci_fib_spec [of "nat n"] by simp

lemma fibonacci_calls_pos: "0 < fibonacci_calls n"
  by (subst fibonacci_calls.simps) simp

lemma sum_list_upto: "0 \<le> n \<Longrightarrow> 2 * sum_list [0..n] = n * (n + 1)"
proof (induction n rule: int_ge_induct)
  case base
  show ?case by simp
next
  case (step i)
  have "[0..i + 1] = [0..i] @ [i + 1]"
    using step.hyps by (simp add: upto_rec2)
  then show ?case
    using step.IH by (simp add: algebra_simps)
qed

lemma sum_range_py: "0 \<le> n \<Longrightarrow> sum_list (range_py (n + 1)) = n * (n + 1) div 2"
  using sum_list_upto [of n] by (simp add: range_py_def)

text \<open>
  Claim C3. The Fibonacci endpoint answers 400 exactly when \<open>n < 0\<close> or \<open>n > 40\<close>, and then
  makes no invocation of the recursion; for \<open>0 \<le> n \<le> 40\<close> it answers with the \<open>n\<close>-th
  Fibonacci number of the specification, computed by the naive double recursion (whose
  unfolding equation is the last-but-three conjunct); \<open>fibonacci(40)\<close> succeeds,
  \<open>fibonacci(41)\<close> and \<open>fibonacci(-1)\<close> are rejected.
\<close>

theorem compute_fibonacci_admission:
  "((\<exists>detail. compute_fibonacci n = Inl (HTTPException 400 detail)) \<longleftrightarrow> (n < 0 \<or> n > 40)) \<and>
   (n < 0 \<or> n > 40 \<longrightarrow> compute_fibonacci_calls n = 0) \<and>
   (0 \<le> n \<and> n \<le> 40 \<longrightarrow>
      compute_fibonacci n = Inr (n, fib_spec (nat n), ''CPU intensive computation completed'') \<and>
      0 < compute_fibonacci_calls n) \<and>
   (1 < n \<longrightarrow> fibonacci n = fibonacci (n - 1) + fibonacci (n - 2)) \<and>
   compute_fibonacci 40 = Inr (40, 102334155, ''CPU intensive computation completed'') \<and>
   compute_fibonacci 41 = Inl (HTTPException 400 ''n must be <= 40 to prevent timeout'') \<and>
   compute_fibonacci (- 1) = Inl (HTTPException 400 ''n must be non-negative'')"
proof -
  have rejected: "(\<exists>detail. compute_fibonacci n = Inl (HTTPException 400 detail)) \<longleftrightarrow> (n < 0 \<or> n > 40)"
    by (simp add: compute_fibonacci_def)
  have no_work: "n < 0 \<or> n > 40 \<longrightarrow> compute_fibonacci_calls n = 0"
    by (simp add: compute_fibonacci_calls_def)
  have accepted: "0 \<le> n \<and> n \<le> 40 \<longrightarrow>
      compute_fibonacci n = Inr (n, fib_spec (nat n), ''CPU intensive computation completed'') \<and>
      0 < compute_fibonacci_calls n"
    by (simp add: compute_fibonacci_def compute_fibonacci_calls_def fibonacci_nonneg
        fibonacci_calls_pos)
  have unfold: "1 < n \<longrightarrow> fibonacci n = fibonacci (n - 1) + fibonacci (n - 2)"
    by (subst fibonacci.simps) simp
  have "fibonacci 40 = fib_spec (nat 40)"
    by (rule fibonacci_nonneg) simp
  then have at_40: "compute_fibonacci 40 = Inr (40, 102334155, ''CPU intensive computation completed'')"
    by (simp add: compute_fibonacci_def fib_spec_40)
  have at_41: "compute_fibonacci 41 = Inl (HTTPException 400 ''n must be <= 40 to prevent timeout'')"
    by (simp add: compute_fibonacci_def)
  have at_m1: "compute_fibonacci (- 1) = Inl (HTTPException 400 ''n must be non-negative'')"
    by (simp add: compute_fibonacci_def)
  from rejected no_work accepted unfold at_40 at_41 at_m1 show ?thesis
    by blast
qed

theorem compute_fibonacci_admission_witness:
  "compute_fibonacci 10 = Inr (10, 55, ''CPU intensive computation completed'') \<and>
   0 < compute_fibonacci_calls 10 \<and>
   compute_fibonacci_calls 41 = 0 \<and>
   compute_fibonacci_calls (- 1) = 0 \<and>
   fibonacci 2 = fibonacci 1 + fibonacci 0"
proof -
  have "fib_pair 10 = (55, 89)"
    by code_simp
  then have "fib_spec (nat 10) = 55"
    by (simp add: fib_pair_spec)
  then show ?thesis
    using compute_fibonacci_admission [of 10] compute_fibonacci_admission [of 41]
      compute_fibonacci_admission [of "- 1"] compute_fibonacci_admission [of 2]
    by simp
qed

text \<open>
  Claim C4. The bounded-sum endpoint answers 400 exactly when \<open>n < 0\<close> or
  \<open>n > 10000000\<close>; otherwise it answers with the sum of the integers \<open>0..n\<close>, which is
  \<open>n * (n + 1) div 2\<close>; \<open>sum(10000000)\<close> succeeds with \<open>10000000 * 10000001 div 2\<close> and
  \<open>sum(10000001)\<close> is rejected.
\<close>

theorem compute_sum_admission:
  "((\<exists>detail. compute_sum n = Inl (HTTPException 400 detail)) \<longleftrightarrow> (n < 0 \<or> n > 10000000)) \<and>
   (0 \<le> n \<and> n \<le> 10000000 \<longrightarrow>
      compute_sum n = Inr (n, sum_list [0..n], ''Computation completed'') \<and>
      sum_list [0..n] = n * (n + 1) div 2) \<and>
   compute_sum 10000000 = Inr (10000000, 10000000 * 10000001 div 2, ''Computation completed'') \<and>
   compute_sum 10000001 = Inl (HTTPException 400 ''n must be <= 10000000'')"
proof -
  have rejected: "(\<exists>detail. compute_sum n = Inl (HTTPException 400 detail)) \<longleftrightarrow> (n < 0 \<or> n > 10000000)"
    by (simp add: compute_sum_def)
  have accepted: "0 \<le> n \<and> n \<le> 10000000 \<longrightarrow>
      compute_sum n = Inr (n, sum_list [0..n], ''Computation completed'') \<and>
      sum_list [0..n] = n * (n + 1) div 2"
    using sum_range_py [of n] by (simp add: compute_sum_def range_py_def)
  have "sum_list (range_py (10000000 + 1)) = 10000000 * (10000000 + 1) div 2"
    by (rule sum_range_py) simp
  then have at_max: "compute_sum 10000000 =
      Inr (10000000, 10000000 * 10000001 div 2, ''Computation completed'')"
    by (simp add: compute_sum_def)
  have above: "compute_sum 10000001 = Inl (HTTPException 400 ''n must be <= 10000000'')"
    by (simp add: compute_sum_def)
  from rejected accepted at_max above show ?thesis
    by blast
qed

theorem compute_sum_admission_witness:
  "compute_sum 4 = Inr (4, 10, ''Computation completed'') \<and> sum_list [0..4] = (10::int)"
  using compute_sum_admission [of 4] by simp

section \<open>Properties of the repository and the handlers\<close>

lemma first_filter_None: "first (filter P rows) = None \<longleftrightarrow> (\<forall>r \<in> set rows. \<not> P r)"
  by (induction rows) (auto simp: first_def)

lemma first_filter_member:
  "x \<in> set (map f rows) \<Longrightarrow> \<exists>r. first (filter (\<lambda>r. f r = x) rows) = Some r \<and> f r = x"
  by (induction rows) (auto simp: first_def)

lemma offset_limit_subset: "offset_limit skip limit rows = Inr page \<Longrightarrow> set page \<subseteq> set rows"
  by (auto simp: offset_limit_def split: if_splits dest: in_set_takeD in_set_dropD)

lemma commit_delete:
  "pending db = [] \<Longrightarrow>
   commit (delete db u) = Inr \<lparr>store = delete_user_row u (store db), pending = []\<rparr>"
  by (simp add: commit_def delete_def)

lemmas example_defs =
  example_session_def example_database_def example_user_1_def example_user_2_def
  example_user_3_def example_post_1_def example_post_2_def

text \<open>
  Claim C1. In a session with nothing staged, deleting a user id \<open>X\<close> that is present
  returns \<open>True\<close>; staging the deletion leaves the store as it is and the one commit
  removes the user and every post whose owner is \<open>X\<close> together (all other rows stay);
  afterwards no page of posts, for any \<open>skip\<close> and \<open>limit\<close>, has a post owned by \<open>X\<close>.
  For an id that is not present the call returns \<open>False\<close> and changes nothing.
\<close>

theorem crud_delete_user_cascade:
  "pending db = [] \<Longrightarrow>
   (X \<in> set (map User_id (users_table (store db))) \<longrightarrow>
      (\<exists>db_user db'. crud_delete_user db X = (Inr True, db') \<and>
         store (delete db db_user) = store db \<and>
         commit (delete db db_user) = Inr db' \<and>
         pending db' = [] \<and>
         users_table (store db') = filter (\<lambda>u. User_id u \<noteq> X) (users_table (store db)) \<and>
         posts_table (store db') = filter (\<lambda>p. Post_owner_id p \<noteq> X) (posts_table (store db)) \<and>
         X \<notin> set (map User_id (users_table (store db'))) \<and>
         X \<notin> set (map Post_owner_id (posts_table (store db'))) \<and>
         (\<forall>skip limit page. crud_get_posts db' skip limit = Inr page \<longrightarrow>
            X \<notin> set (map Post_owner_id page)))) \<and>
   (X \<notin> set (map User_id (users_table (store db))) \<longrightarrow> crud_delete_user db X = (Inr False, db))"
proof (intro conjI impI)
  assume fresh: "pending db = []" and present: "X \<in> set (map User_id (users_table (store db)))"
  from present obtain u
    where u: "first (filter (\<lambda>r. User_id r = X) (users_table (store db))) = Some u"
      and uX: "User_id u = X"
    using first_filter_member [of X User_id "users_table (store db)"] by blast
  define db' where "db' = \<lparr>store = delete_user_row u (store db), pending = []\<rparr>"
  have c: "commit (delete db u) = Inr db'"
    using fresh by (simp add: commit_delete db'_def)
  have r: "crud_delete_user db X = (Inr True, db')"
    using u c by (simp add: crud_delete_user_def)
  have us: "users_table (store db') = filter (\<lambda>u. User_id u \<noteq> X) (users_table (store db))"
    and ps: "posts_table (store db') = filter (\<lambda>p. Post_owner_id p \<noteq> X) (posts_table (store db))"
    using uX by (simp_all add: db'_def delete_user_row_def)
  have nu: "X \<notin> set (map User_id (users_table (store db')))"
    and np: "X \<notin> set (map Post_owner_id (posts_table (store db')))"
    by (auto simp: us ps)
  have pages: "\<forall>skip limit page. crud_get_posts db' skip limit = Inr page \<longrightarrow>
      X \<notin> set (map Post_owner_id page)"
    using np offset_limit_subset unfolding crud_get_posts_def by fastforce
  have st: "store (delete db u) = store db"
    by (simp add: delete_def)
  have pd: "pending db' = []"
    by (simp add: db'_def)
  from r st c pd us ps nu np pages
  show "\<exists>db_user db'. crud_delete_user db X = (Inr True, db') \<and>
         store (delete db db_user) = store db \<and>
         commit (delete db db_user) = Inr db' \<and>
         pending db' = [] \<and>
         users_table (store db') = filter (\<lambda>u. User_id u \<noteq> X) (users_table (store db)) \<and>
         posts_table (store db') = filter (\<lambda>p. Post_owner_id p \<noteq> X) (posts_table (store db)) \<and>
         X \<notin> set (map User_id (users_table (store db'))) \<and>
         X \<notin> set (map Post_owner_id (posts_table (store db'))) \<and>
         (\<forall>skip limit page. crud_get_posts db' skip limit = Inr page \<longrightarrow>
            X \<notin> set (map Post_owner_id page))"
    by blast
next
  assume "X \<notin> set (map User_id (users_table (store db)))"
  then have "first (filter (\<lambda>r. User_id r = X) (users_table (store db))) = None"
    by (auto simp: first_filter_None)
  then show "crud_delete_user db X = (Inr False, db)"
    by (simp add: crud_delete_user_def)
qed

lemma example_delete:
  "crud_delete_user example_session 1 =
     (Inr True, \<lparr>store = \<lparr>users_table = [example_user_2, example_user_3],
                          posts_table = [example_post_2],
                          users_id_seq = 3, posts_id_seq = 2, clock = 0, slots = (\<lambda>k. 0)\<rparr>,
                 pending = []\<rparr>)"
  by (simp add: crud_delete_user_def first_def delete_def commit_def delete_user_row_def
      example_defs)

theorem crud_delete_user_cascade_witness:
  "pending example_session = [] \<and>
   1 \<in> set (map User_id (users_table (store example_session))) \<and>
   crud_delete_user example_session 1 =
     (Inr True, \<lparr>store = \<lparr>users_table = [example_user_2, example_user_3],
                          posts_table = [example_post_2],
                          users_id_seq = 3, posts_id_seq = 2, clock = 0, slots = (\<lambda>k. 0)\<rparr>,
                 pending = []\<rparr>) \<and>
   crud_get_posts (snd (crud_delete_user example_session 1)) 0 100 = Inr [example_post_2] \<and>
   1 \<notin> set (map Post_owner_id [example_post_2]) \<and>
   4 \<notin> set (map User_id (users_table (store example_session))) \<and>
   crud_delete_user example_session 4 = (Inr False, example_session)"
proof -
  have p: "pending example_session = []"
    by (simp add: example_session_def)
  have m: "1 \<in> set (map User_id (users_table (store example_session)))"
    and n: "4 \<notin> set (map User_id (users_table (store example_session)))"
    by (simp_all add: example_defs)
  from crud_delete_user_cascade [OF p, of 1] m
  obtain db' where d: "crud_delete_user example_session 1 = (Inr True, db')"
    and o: "\<forall>skip limit page. crud_get_posts db' skip limit = Inr page \<longrightarrow>
            1 \<notin> set (map Post_owner_id page)"
    by blast
  have g: "crud_get_posts (snd (crud_delete_user example_session 1)) 0 100 = Inr [example_post_2]"
    by (simp add: example_delete crud_get_posts_def offset_limit_def)
  with d have "crud_get_posts db' 0 100 = Inr [example_post_2]"
    by simp
  with o have "1 \<notin> set (map Post_owner_id [example_post_2])"
    by blast
  moreover have "crud_delete_user example_session 4 = (Inr False, example_session)"
    using crud_delete_user_cascade [OF p, of 4] n by blast
  ultimately show ?thesis
    using p m n g example_delete by simp
qed

lemma example_create:
  "crud_create_user example_session \<lparr>email = ''d@x.com'', full_name = ''D'', is_active = True\<rparr> =
     (Inr \<lparr>User_id = 4, User_email = ''d@x.com'', User_full_name = ''D'',
            User_is_active = True, User_created_at = 0\<rparr>,
      \<lparr>store = \<lparr>users_table = [\<lparr>User_id = 4, User_email = ''d@x.com'', User_full_name = ''D'',
                     User_is_active = True, User_created_at = 0\<rparr>,
                   example_user_1, example_user_2, example_user_3],
                posts_table = [example_post_1, example_post_2],
                users_id_seq = 4, posts_id_seq = 2, clock = 0, slots = (\<lambda>k. 0)\<rparr>,
       pending = []\<rparr>)"
  by (simp add: crud_create_user_def add_def commit_def insert_user_def insert_row_def
      refresh_User_def first_def Let_def example_defs)




text \<open>
  Claim C5. When the store already has a user with the email of the request, the
  create-user handler raises 400 and returns the session exactly as it received it:
  nothing is staged and nothing is committed. The check comes before the insert: only
  when no stored user has the email does the handler go on to the repository's create.
\<close>

theorem create_user_conflict:
  "(email user \<in> set (map User_email (users_table (store db))) \<longrightarrow>
      create_user db user = (Inl (HTTPException 400 ''Email already registered''), db)) \<and>
   (email user \<notin> set (map User_email (users_table (store db))) \<longrightarrow>
      create_user db user = crud_create_user db user)"
proof (intro conjI impI)
  assume "email user \<in> set (map User_email (users_table (store db)))"
  then obtain u where "crud_get_user_by_email db (email user) = Some u"
    unfolding crud_get_user_by_email_def
    using first_filter_member [of "email user" User_email "users_table (store db)"] by blast
  then show "create_user db user = (Inl (HTTPException 400 ''Email already registered''), db)"
    by (simp add: create_user_def)
next
  assume "email user \<notin> set (map User_email (users_table (store db)))"
  then have "crud_get_user_by_email db (email user) = None"
    by (force simp: crud_get_user_by_email_def first_filter_None)
  then show "create_user db user = crud_create_user db user"
    by (simp add: create_user_def)
qed

theorem create_user_conflict_witness:
  "create_user example_session \<lparr>email = ''a@x.com'', full_name = ''Z'', is_active = False\<rparr> =
     (Inl (HTTPException 400 ''Email already registered''), example_session) \<and>
   fst (create_user example_session \<lparr>email = ''d@x.com'', full_name = ''D'', is_active = True\<rparr>) =
     Inr \<lparr>User_id = 4, User_email = ''d@x.com'', User_full_name = ''D'',
          User_is_active = True, User_created_at = 0\<rparr>"
proof -
  have "email \<lparr>email = ''a@x.com'', full_name = ''Z'', is_active = False\<rparr>
      \<in> set (map User_email (users_table (store example_session)))"
    by (simp add: example_defs)
  moreover have "email \<lparr>email = ''d@x.com'', full_name = ''D'', is_active = True\<rparr>
      \<notin> set (map User_email (users_table (store example_session)))"
    by (simp add: example_defs)
  ultimately show ?thesis
    using create_user_conflict
        [of "\<lparr>email = ''a@x.com'', full_name = ''Z'', is_active = False\<rparr>" example_session]
      create_user_conflict
        [of "\<lparr>email = ''d@x.com'', full_name = ''D'', is_active = True\<rparr>" example_session]
      example_create
    by simp
qed

text \<open>
  Claim C6. When no stored user has the id \<open>U\<close>, the create-post handler raises 404 and
  returns the session exactly as it received it: no post is staged or inserted. The check
  comes before the insert: only for an id that is present does the handler go on to the
  repository's create.
\<close>

theorem create_post_for_user_not_found:
  "(U \<notin> set (map User_id (users_table (store db))) \<longrightarrow>
      create_post_for_user db U post = (Inl (HTTPException 404 ''User not found''), db)) \<and>
   (U \<in> set (map User_id (users_table (store db))) \<longrightarrow>
      create_post_for_user db U post = crud_create_post db post U)"
proof (intro conjI impI)
  assume "U \<notin> set (map User_id (users_table (store db)))"
  then have "crud_get_user db U = None"
    by (auto simp: crud_get_user_def first_filter_None)
  then show "create_post_for_user db U post = (Inl (HTTPException 404 ''User not found''), db)"
    by (simp add: create_post_for_user_def)
next
  assume "U \<in> set (map User_id (users_table (store db)))"
  then obtain u where "crud_get_user db U = Some u"
    unfolding crud_get_user_def
    using first_filter_member [of U User_id "users_table (store db)"] by blast
  then show "create_post_for_user db U post = crud_create_post db post U"
    by (simp add: create_post_for_user_def)
qed

lemma example_create_post:
  "crud_create_post example_session \<lparr>title = ''V'', content = ''E'', is_published = True\<rparr> 3 =
     (Inr \<lparr>Post_id = 3, Post_title = ''V'', Post_content = ''E'', Post_is_published = True,
            Post_created_at = 0, Post_owner_id = 3\<rparr>,
      \<lparr>store = \<lparr>users_table = [example_user_1, example_user_2, example_user_3],
                posts_table = [\<lparr>Post_id = 3, Post_title = ''V'', Post_content = ''E'',
                     Post_is_published = True, Post_created_at = 0, Post_owner_id = 3\<rparr>,
                   example_post_1, example_post_2],
                users_id_seq = 3, posts_id_seq = 3, clock = 0, slots = (\<lambda>k. 0)\<rparr>,
       pending = []\<rparr>)"
  by (simp add: crud_create_post_def add_def commit_def insert_post_def insert_row_def
      refresh_Post_def first_def Let_def example_defs)

theorem create_post_for_user_not_found_witness:
  "create_post_for_user example_session 7 \<lparr>title = ''V'', content = ''E'', is_published = True\<rparr> =
     (Inl (HTTPException 404 ''User not found''), example_session) \<and>
   posts_table (store (snd (create_post_for_user example_session 7
       \<lparr>title = ''V'', content = ''E'', is_published = True\<rparr>))) =
     posts_table (store example_session) \<and>
   fst (create_post_for_user example_session 3
       \<lparr>title = ''V'', content = ''E'', is_published = True\<rparr>) =
     Inr \<lparr>Post_id = 3, Post_title = ''V'', Post_content = ''E'', Post_is_published = True,
          Post_created_at = 0, Post_owner_id = 3\<rparr>"
proof -
  have "7 \<notin> set (map User_id (users_table (store example_session)))"
    and "3 \<in> set (map User_id (users_table (store example_session)))"
    by (simp_all add: example_defs)
  then show ?thesis
    using create_post_for_user_not_found
        [of 7 example_session "\<lparr>title = ''V'', content = ''E'', is_published = True\<rparr>"]
      create_post_for_user_not_found
        [of 3 example_session "\<lparr>title = ''V'', content = ''E'', is_published = True\<rparr>"]
      example_create_post
    by simp
qed

section \<open>Properties of the session lifecycle and of request validation\<close>

lemma fold_max_ge: "a \<le> fold max xs (a::nat)"
  by (induction xs arbitrary: a) (auto intro: order_trans [OF max.cobounded2])

lemma fold_max_member: "x \<in> set xs \<Longrightarrow> x \<le> fold max xs (a::nat)"
proof (induction xs arbitrary: a)
  case Nil
  then show ?case by simp
next
  case (Cons y ys)
  show ?case
  proof (cases "x = y")
    case True
    have "max y a \<le> fold max ys (max y a)"
      by (rule fold_max_ge)
    with True show ?thesis by simp
  next
    case False
    with Cons show ?thesis by simp
  qed
qed

lemma fresh_handle: "Suc (fold max (map handle evs) 0) \<notin> set (map handle evs)"
  using fold_max_member [of "Suc (fold max (map handle evs) 0)" "map handle evs" 0] by auto

text \<open>
  Claim C9. Around any endpoint, whatever it returns or raises (a normal result, an early
  404 or 400, or a failure of the store are all values of \<open>result\<close>), \<open>get_db\<close> acquires one
  session under a handle that was not in use, runs the endpoint with it, and releases that
  handle once, after the endpoint and before the operation completes: the log grows by
  exactly the opening and the closing of that handle, so each occurs exactly once in it.
  The release is in \<open>get_db\<close>: the endpoint has the session only, not the log.
\<close>

theorem get_db_releases_once:
  "\<exists>h result db'.
     endpoint \<lparr>store = engine srv, pending = []\<rparr> = (result, db') \<and>
     get_db endpoint srv =
       (result, \<lparr>engine = store db', sessions = sessions srv @ [Opened h, Closed h]\<rparr>) \<and>
     h \<notin> set (map handle (sessions srv)) \<and>
     count_list (sessions (snd (get_db endpoint srv))) (Opened h) = 1 \<and>
     count_list (sessions (snd (get_db endpoint srv))) (Closed h) = 1"
proof -
  define h where "h = Suc (fold max (map handle (sessions srv)) 0)"
  obtain result db' where e: "endpoint \<lparr>store = engine srv, pending = []\<rparr> = (result, db')"
    by (cases "endpoint \<lparr>store = engine srv, pending = []\<rparr>")
  have g: "get_db endpoint srv =
      (result, \<lparr>engine = store db', sessions = sessions srv @ [Opened h, Closed h]\<rparr>)"
    using e by (simp add: get_db_def SessionLocal_def close_def h_def Let_def)
  have f: "h \<notin> set (map handle (sessions srv))"
    unfolding h_def by (rule fresh_handle)
  have "Opened h \<notin> set (sessions srv)" and "Closed h \<notin> set (sessions srv)"
    using f by force+
  then have "count_list (sessions srv) (Opened h) = 0" and "count_list (sessions srv) (Closed h) = 0"
    by (simp_all add: count_list_0_iff)
  then have c: "count_list (sessions (snd (get_db endpoint srv))) (Opened h) = 1"
      "count_list (sessions (snd (get_db endpoint srv))) (Closed h) = 1"
    by (simp_all add: g)
  from e g f c show ?thesis
    by blast
qed

lemma example_read_user_missing:
  "read_user \<lparr>store = engine example_server, pending = []\<rparr> 7 =
     (Inl (HTTPException 404 ''User not found''), \<lparr>store = example_database, pending = []\<rparr>)"
  by (simp add: read_user_def crud_get_user_def first_def example_server_def example_defs)

theorem get_db_releases_once_witness:
  "read_user_route 7 example_server =
     (Inl (HTTPException 404 ''User not found''),
      \<lparr>engine = example_database, sessions = [Opened 1, Closed 1, Opened 2, Closed 2]\<rparr>) \<and>
   count_list (sessions (snd (read_user_route 7 example_server))) (Opened 2) = 1 \<and>
   count_list (sessions (snd (read_user_route 7 example_server))) (Closed 2) = 1"
proof -
  from get_db_releases_once [of "\<lambda>db. read_user db 7" example_server]
  obtain h result db' where
    e: "read_user \<lparr>store = engine example_server, pending = []\<rparr> 7 = (result, db')" and
    g: "get_db (\<lambda>db. read_user db 7) example_server =
      (result, \<lparr>engine = store db', sessions = sessions example_server @ [Opened h, Closed h]\<rparr>)" and
    c: "count_list (sessions (snd (get_db (\<lambda>db. read_user db 7) example_server))) (Opened h) = 1"
      "count_list (sessions (snd (get_db (\<lambda>db. read_user db 7) example_server))) (Closed h) = 1"
    by blast
  have v: "get_db (\<lambda>db. read_user db 7) example_server =
     (Inl (HTTPException 404 ''User not found''),
      \<lparr>engine = example_database, sessions = [Opened 1, Closed 1, Opened 2, Closed 2]\<rparr>)"
    using example_read_user_missing
    by (simp add: get_db_def SessionLocal_def close_def Let_def) (simp add: example_server_def)
  from g v have "h = 2"
    by (simp add: example_server_def)
  with c v show ?thesis
    unfolding read_user_route_def by simp
qed

text \<open>
  Claim C10. A create-user request whose email field is missing or is rejected by the
  email validator is rejected by the validation of the payload: whatever endpoint stands
  behind the validation is not called (the outcome is the same for every endpoint, with
  the session untouched), and the engine's store is unchanged. A payload reaches the
  handler, and with it the duplicate-email check and the insert, only when it was
  accepted, and its email is then an address the validator accepted.
\<close>

theorem create_user_route_invalid_email:
  "((case b ''email'' of None \<Rightarrow> True | Some v \<Rightarrow> validate_EmailStr V v = None) \<longrightarrow>
      validate_UserCreate V b = Inl RequestValidationError \<and>
      (\<forall>endpoint db. request_body (validate_UserCreate V) endpoint b db =
         (Inl RequestValidationError :: error + User, db)) \<and>
      fst (create_user_route V b srv) = Inl RequestValidationError \<and>
      engine (snd (create_user_route V b srv)) = engine srv) \<and>
   (\<forall>user. validate_UserCreate V b = Inr user \<longrightarrow>
      (\<exists>v. b ''email'' = Some v \<and> validate_EmailStr V v = Some (email user)) \<and>
      create_user_route V b srv = get_db (\<lambda>db. create_user db user) srv)"
proof (intro conjI impI allI)
  assume bad: "case b ''email'' of None \<Rightarrow> True | Some v \<Rightarrow> validate_EmailStr V v = None"
  then have n: "Option.bind (b ''email'') (validate_EmailStr V) = None"
    by (cases "b ''email''") simp_all
  show v: "validate_UserCreate V b = Inl RequestValidationError"
    by (simp add: validate_UserCreate_def n)
  show r: "\<And>endpoint db. request_body (validate_UserCreate V) endpoint b db =
         (Inl RequestValidationError :: error + User, db)"
    by (simp add: request_body_def v)
  show "fst (create_user_route V b srv) = Inl RequestValidationError"
    by (simp add: create_user_route_def get_db_def SessionLocal_def Let_def r)
  show "engine (snd (create_user_route V b srv)) = engine srv"
    by (simp add: create_user_route_def get_db_def SessionLocal_def Let_def r close_def)
next
  fix user
  assume ok: "validate_UserCreate V b = Inr user"
  then show "\<exists>v. b ''email'' = Some v \<and> validate_EmailStr V v = Some (email user)"
    by (cases "b ''email''")
      (auto simp: validate_UserCreate_def split: option.splits)
  have "request_body (validate_UserCreate V) create_user b = (\<lambda>db. create_user db user)"
    by (rule ext) (simp add: request_body_def ok)
  then show "create_user_route V b srv = get_db (\<lambda>db. create_user db user) srv"
    by (simp add: create_user_route_def)
qed

lemma example_validate_bad:
  "(case example_body_bad ''email'' of None \<Rightarrow> True
    | Some v \<Rightarrow> validate_EmailStr example_validators v = None)"
  by (simp add: example_body_bad_def example_validators_def)

lemma example_validate_good:
  "validate_UserCreate example_validators example_body_good =
     Inr \<lparr>email = ''d@x.com'', full_name = ''D'', is_active = True\<rparr>"
  by (simp add: validate_UserCreate_def example_body_good_def example_validators_def)

theorem create_user_route_invalid_email_witness:
  "validate_UserCreate example_validators example_body_bad = Inl RequestValidationError \<and>
   fst (create_user_route example_validators example_body_bad example_server) =
     Inl RequestValidationError \<and>
   engine (snd (create_user_route example_validators example_body_bad example_server)) =
     engine example_server \<and>
   example_body_good ''email'' = Some (JString ''d@x.com'') \<and>
   validate_EmailStr example_validators (JString ''d@x.com'') = Some ''d@x.com'' \<and>
   create_user_route example_validators example_body_good example_server =
     get_db (\<lambda>db. create_user db \<lparr>email = ''d@x.com'', full_name = ''D'', is_active = True\<rparr>)
       example_server"
proof -
  note t = create_user_route_invalid_email
    [where b = example_body_bad and V = example_validators and srv = example_server]
  note u = create_user_route_invalid_email
    [where b = example_body_good and V = example_validators and srv = example_server]
  have f1: "validate_UserCreate example_validators example_body_bad = Inl RequestValidationError"
    and f2: "fst (create_user_route example_validators example_body_bad example_server) =
      Inl RequestValidationError"
    and f3: "engine (snd (create_user_route example_validators example_body_bad example_server)) =
      engine example_server"
    using t example_validate_bad by blast+
  have f4: "example_body_good ''email'' = Some (JString ''d@x.com'')"
    by (simp add: example_body_good_def)
  have f5: "validate_EmailStr example_validators (JString ''d@x.com'') = Some ''d@x.com''"
    by (simp add: example_validators_def)
  have f6: "create_user_route example_validators example_body_good example_server =
     get_db (\<lambda>db. create_user db \<lparr>email = ''d@x.com'', full_name = ''D'', is_active = True\<rparr>)
       example_server"
    using u example_validate_good by blast
  show ?thesis
    by (intro conjI f1 f2 f3 f4 f5 f6)
qed

section \<open>Properties of the load orchestrator\<close>

lemma mixed_load_tasks_cycle:
  "\<exists>r w1. mixed_load_tasks c w = (cycle_calls c r, w1) \<and> 25 \<le> r \<and> r \<le> 30 \<and>
     readings w1 = readings w \<and> trace w1 = trace w"
proof (cases "c mod 5 = 0")
  case True
  let ?r = "25 + int (draws w 0) mod 6"
  have "mixed_load_tasks c w = (cycle_calls c ?r, w\<lparr>draws := (\<lambda>k. draws w (Suc k))\<rparr>)"
    using True by (simp add: mixed_load_tasks_def cycle_calls_def randint_def)
  moreover have "25 \<le> ?r" and "?r \<le> 30"
    by simp_all
  ultimately show ?thesis
    by force
next
  case False
  then have "mixed_load_tasks c w = (cycle_calls c 25, w)"
    by (simp add: mixed_load_tasks_def cycle_calls_def)
  then show ?thesis
    by force
qed

lemma mixed_load_loop_cycles:
  "(\<forall>k<N. readings w k - start_time < of_int duration) \<Longrightarrow>
   \<not> readings w N - start_time < of_int duration \<Longrightarrow> N < fuel \<Longrightarrow>
   \<exists>w' cycles. mixed_load_loop fuel start_time duration c w = Some (c + N, w') \<and>
     length cycles = N \<and> cycles_ok c cycles \<and>
     trace w' = trace w @ cycles_events c cycles"
proof (induction N arbitrary: fuel c w)
  case 0
  then obtain f where f: "fuel = Suc f"
    by (cases fuel) auto
  from 0 show ?case
    unfolding f by (auto simp: time_time_def intro!: exI [of _ "[]"])
next
  case (Suc n)
  then obtain f where f: "fuel = Suc f" and nf: "n < f"
    by (cases fuel) auto
  let ?w1 = "w\<lparr>readings := (\<lambda>k. readings w (Suc k))\<rparr>"
  obtain r w2 where t: "mixed_load_tasks c ?w1 = (cycle_calls c r, w2)"
    and r: "25 \<le> r" "r \<le> 30" and rd: "readings w2 = readings ?w1" and tr: "trace w2 = trace ?w1"
    using mixed_load_tasks_cycle [of c ?w1] by blast
  obtain results w3 where g: "gather (cycle_calls c r) w2 = (results, w3)"
    by (cases "gather (cycle_calls c r) w2")
  then have len: "length results = length (cycle_calls c r)"
    and rd3: "readings w3 = readings w2"
    and tr3: "trace w3 = trace w2 @ map Issued (cycle_calls c r) @ [Joined results]"
    by (auto simp: gather_def Let_def)
  let ?w4 = "sleep (1 / 10) w3"
  have rd4: "readings ?w4 = (\<lambda>k. readings w (Suc k))"
    and tr4: "trace ?w4 = trace w @ map Issued (cycle_calls c r) @ [Joined results, Slept (1 / 10)]"
    by (simp_all add: sleep_def rd3 rd tr3 tr)
  have a: "\<forall>k<n. readings ?w4 k - start_time < of_int duration"
    and b: "\<not> readings ?w4 n - start_time < of_int duration"
    using Suc.prems(1,2) by (simp_all add: rd4)
  from Suc.IH [OF a b nf, of "Suc c"]
  obtain w' cycles where l: "mixed_load_loop f start_time duration (Suc c) ?w4 = Some (Suc c + n, w')"
    and c: "length cycles = n" "cycles_ok (Suc c) cycles"
    and e: "trace w' = trace ?w4 @ cycles_events (Suc c) cycles"
    by blast
  have first: "readings w 0 - start_time < of_int duration"
    using Suc.prems(1) by simp
  have "mixed_load_loop fuel start_time duration c w = Some (c + Suc n, w')"
    unfolding f using first t g l by (simp add: time_time_def)
  moreover have "length ((r, results) # cycles) = Suc n"
    and "cycles_ok c ((r, results) # cycles)"
    and "trace w' = trace w @ cycles_events c ((r, results) # cycles)"
    using c r len e tr4 by simp_all
  ultimately show ?case
    by blast
qed

lemma mixed_load_loop_never:
  "(\<forall>k. readings w k - start_time < of_int duration) \<Longrightarrow>
   mixed_load_loop fuel start_time duration c w = None"
proof (induction fuel arbitrary: c w)
  case 0
  show ?case by simp
next
  case (Suc f)
  let ?w1 = "w\<lparr>readings := (\<lambda>k. readings w (Suc k))\<rparr>"
  obtain r w2 where t: "mixed_load_tasks c ?w1 = (cycle_calls c r, w2)"
    and rd: "readings w2 = readings ?w1"
    using mixed_load_tasks_cycle [of c ?w1] by blast
  obtain results w3 where g: "gather (cycle_calls c r) w2 = (results, w3)"
    by (cases "gather (cycle_calls c r) w2")
  then have rd3: "readings w3 = readings w2"
    by (auto simp: gather_def Let_def)
  have "\<forall>k. readings (sleep (1 / 10) w3) k - start_time < of_int duration"
    using Suc.prems by (simp add: sleep_def rd3 rd)
  from Suc.IH [OF this] Suc.prems [rule_format, of 0] t g show ?case
    by (simp add: time_time_def)
qed

lemma cycle_calls_cadence:
  "count_list (cycle_calls i r) Health_check = 1 \<and>
   (Get_users 0 20 \<in> set (cycle_calls i r) \<longleftrightarrow> i mod 3 = 0) \<and>
   (Compute_fibonacci r \<in> set (cycle_calls i r) \<longleftrightarrow> i mod 5 = 0)"
  by (simp add: cycle_calls_def)

text \<open>
  Claim C8, as stated, fails at the boundary: the loop ends as soon as the elapsed time is
  no longer below the duration. With a clock that reads exactly 60 seconds after the start
  and a duration of 60, the loop ends without one iteration although the elapsed time does
  not exceed the duration.
\<close>

theorem run_mixed_load_boundary_counterexample:
  "map_option trace (run_mixed_load 1 60 example_world_boundary) =
     Some [Printed (Completed_cycles 0 60)] \<and>
   \<not> (of_int 60 < readings example_world_boundary 1 - readings example_world_boundary 0)"
  by (simp add: run_mixed_load_def example_world_boundary_def time_time_def print_def)

text \<open>
  Claim C8, amended. The continuous mixed-load phase loops while the elapsed time is below
  the duration, that is until it reaches or exceeds it: when the check of the condition
  number \<open>N\<close> is the first at which the elapsed time is at least the duration, the run
  has exactly \<open>N\<close> iterations (and a run whose clock never gets there never ends).
  Every one of the \<open>N\<close> iterations is complete, the last one too: it issues one health
  check, on every 3rd iteration a list call and on every 5th iteration a Fibonacci call with
  a parameter from 25 to 30, joins exactly these calls, then sleeps the fixed interval. The
  last action is the report of the counter, which is \<open>N\<close>.
\<close>

theorem run_mixed_load_cycles:
  "((\<forall>k<N. readings w (Suc k) - readings w 0 < of_int duration) \<and>
    of_int duration \<le> readings w (Suc N) - readings w 0 \<and> N < fuel \<longrightarrow>
      (\<exists>w' cycles. run_mixed_load fuel duration w = Some w' \<and>
         length cycles = N \<and> cycles_ok 0 cycles \<and>
         trace w' = trace w @ cycles_events 0 cycles @ [Printed (Completed_cycles N duration)])) \<and>
   ((\<forall>k. readings w (Suc k) - readings w 0 < of_int duration) \<longrightarrow>
      run_mixed_load fuel duration w = None) \<and>
   (\<forall>i r. count_list (cycle_calls i r) Health_check = 1 \<and>
      (Get_users 0 20 \<in> set (cycle_calls i r) \<longleftrightarrow> i mod 3 = 0) \<and>
      (Compute_fibonacci r \<in> set (cycle_calls i r) \<longleftrightarrow> i mod 5 = 0))"
proof (intro conjI impI allI)
  let ?w1 = "w\<lparr>readings := (\<lambda>k. readings w (Suc k))\<rparr>"
  assume h: "(\<forall>k<N. readings w (Suc k) - readings w 0 < of_int duration) \<and>
    of_int duration \<le> readings w (Suc N) - readings w 0 \<and> N < fuel"
  then have a: "\<forall>k<N. readings ?w1 k - readings w 0 < of_int duration"
    and b: "\<not> readings ?w1 N - readings w 0 < of_int duration" and c: "N < fuel"
    by simp_all
  from mixed_load_loop_cycles [OF a b c, of 0]
  obtain w' cycles where "mixed_load_loop fuel (readings w 0) duration 0 ?w1 = Some (N, w')"
    and "length cycles = N" "cycles_ok 0 cycles" "trace w' = trace w @ cycles_events 0 cycles"
    by auto
  then show "\<exists>w' cycles. run_mixed_load fuel duration w = Some w' \<and>
         length cycles = N \<and> cycles_ok 0 cycles \<and>
         trace w' = trace w @ cycles_events 0 cycles @ [Printed (Completed_cycles N duration)]"
    by (auto simp: run_mixed_load_def time_time_def print_def)
next
  let ?w1 = "w\<lparr>readings := (\<lambda>k. readings w (Suc k))\<rparr>"
  assume "\<forall>k. readings w (Suc k) - readings w 0 < of_int duration"
  then have "\<forall>k. readings ?w1 k - readings w 0 < of_int duration"
    by simp
  from mixed_load_loop_never [OF this] show "run_mixed_load fuel duration w = None"
    by (simp add: run_mixed_load_def time_time_def)
next
  fix i r
  show "count_list (cycle_calls i r) Health_check = 1"
    and "Get_users 0 20 \<in> set (cycle_calls i r) \<longleftrightarrow> i mod 3 = 0"
    and "Compute_fibonacci r \<in> set (cycle_calls i r) \<longleftrightarrow> i mod 5 = 0"
    using cycle_calls_cadence [of i r] by simp_all
qed

lemma example_run:
  "map_option trace (run_mixed_load 5 60 example_world) =
     Some [Issued Health_check, Issued (Get_users 0 20), Issued (Compute_fibonacci 28),
           Joined [Returned, Raised, Returned], Slept (1 / 10),
           Issued Health_check, Joined [Returned], Slept (1 / 10),
           Printed (Completed_cycles 2 60)]"
  by code_simp

theorem run_mixed_load_cycles_witness:
  "run_mixed_load 5 60 example_world \<noteq> None \<and>
   map_option trace (run_mixed_load 5 60 example_world) =
     Some [Issued Health_check, Issued (Get_users 0 20), Issued (Compute_fibonacci 28),
           Joined [Returned, Raised, Returned], Slept (1 / 10),
           Issued Health_check, Joined [Returned], Slept (1 / 10),
           Printed (Completed_cycles 2 60)] \<and>
   run_mixed_load 5 60 (example_world\<lparr>readings := (\<lambda>k. 0)\<rparr>) = None"
proof -
  have a: "\<forall>k<2. readings example_world (Suc k) - readings example_world 0 < of_int 60"
    by (simp add: example_world_def less_Suc_eq numeral_2_eq_2)
  have b: "of_int 60 \<le> readings example_world (Suc 2) - readings example_world 0"
    by (simp add: example_world_def)
  from run_mixed_load_cycles [of 2 example_world 60 5] a b
  have f1: "run_mixed_load 5 60 example_world \<noteq> None"
    by auto
  have "\<forall>k. readings (example_world\<lparr>readings := (\<lambda>k. 0)\<rparr>) (Suc k) -
      readings (example_world\<lparr>readings := (\<lambda>k. 0)\<rparr>) 0 < of_int 60"
    by simp
  with run_mixed_load_cycles [of 0 "example_world\<lparr>readings := (\<lambda>k. 0)\<rparr>" 60 5]
  have f3: "run_mixed_load 5 60 (example_world\<lparr>readings := (\<lambda>k. 0)\<rparr>) = None"
    by blast
  show ?thesis
    by (intro conjI f1 example_run f3)
qed








end
